theory Spec2Isabelle
  imports Complex_Main
begin

section \<open>Events and exceptions\<close>

text \<open>
  An event is one row of the array returned by \<open>find_events\<close>: the sample index, the
  previous value of the trigger channel and the event code (column 2, the only column
  \<open>classifier.py\<close> reads).
\<close>

record event =
  ev_sample :: int
  ev_prev :: int
  ev_code :: int

text \<open>
  The exceptions of the Python code as values. \<open>not_enough_events\<close> is the
  \<open>ValueError\<close> raised at line 174, the sequence-not-found error of the matcher.
\<close>

datatype py_exception =
  ValueError string
  | IndexError string
  | AttributeError string
  | ExternalError string

definition not_enough_events :: py_exception where
  "not_enough_events = ValueError ''Not enough events found for prediction''"

section \<open>The inference-mode matcher (\<open>Classifier.preprocess\<close>, lines 160-176)\<close>

text \<open>
  The \<open>for\<close> loop of lines 163-171 with its state \<open>j\<close>, \<open>trial_events\<close>. The result is
  the state in which the loop ends, by \<open>break\<close> or by exhausting the events. Reading
  \<open>self.sequence[j]\<close> out of range raises \<open>IndexError\<close>.
\<close>

fun scan :: "int list \<Rightarrow> nat \<Rightarrow> event list \<Rightarrow> event list \<Rightarrow> py_exception + (nat \<times> event list)" where
  "scan seq j trial_events [] = Inr (j, trial_events)"
| "scan seq j trial_events (e # es) =
     (if j < length seq then
        (if ev_code e = seq ! j then
           (if Suc j = length seq then Inr (Suc j, trial_events @ [e])
            else scan seq (Suc j) (trial_events @ [e]) es)
         else scan seq 0 [] es)
      else Inl (IndexError ''index out of range''))"

text \<open>Lines 160-175: the loop from \<open>j = 0\<close> with no candidate, then the length check.\<close>

definition find_sequence :: "int list \<Rightarrow> event list \<Rightarrow> py_exception + event list" where
  "find_sequence seq events =
     (case scan seq 0 [] events of
        Inl ex \<Rightarrow> Inl ex
      | Inr (j, trial_events) \<Rightarrow>
          if length trial_events < length seq then Inl not_enough_events
          else Inr trial_events)"


section \<open>The classifier object and its collaborators\<close>

text \<open>\<open>self.mode\<close>: \<open>'train'\<close> or \<open>'predict'\<close>, set by \<open>set_inference_mode\<close>.\<close>

datatype run_mode = Train | Predict

text \<open>
  The records written through \<open>logging.info\<close> and \<open>logging.error\<close>, with the values they
  format. The \<open>logging.debug\<close> calls are left out.
\<close>

datatype log_record =
  Found_matching_events "event list"
  | Data_preprocessed nat
  | Training_data_shape nat nat
  | CV_accuracy "real list"
  | CV_f1 "real list"
  | Eval_accuracy real
  | Eval_f1 real
  | Error_while_preprocessing py_exception

text \<open>
  The attributes of \<open>Classifier\<close> that its own methods read or write. \<open>'x\<close> is one epoch
  (one row of \<open>X\<close>), \<open>'s\<close> a scaler and \<open>'m\<close> a model object. The attributes that are only
  handed to the external libraries (board id, sampling rate, channels, epoch window) are
  part of the collaborators below.
\<close>

record ('x, 's, 'm) classifier =
  model :: 'm
  mode :: run_mode
  sequence :: "int list"
  cv_splits :: nat
  training_class :: int
  scaler :: "'s option"
  prep_X :: "'x list option"
  prep_Y :: "nat list option"
  log_records :: "log_record list"

text \<open>The scorers handed to \<open>cross_val_score\<close> (lines 119-121).\<close>

datatype scoring = Accuracy | Weighted_f1

text \<open>
  The external libraries (MNE, scikit-learn, imbalanced-learn, numpy on floats), each
  call as a function that may raise. \<open>'d\<close> is the recording handed to \<open>preprocess\<close>.
  \<open>find_events\<close> stands for lines 142-150, \<open>epochs\<close> for lines 182-185 (the epochs and
  \<open>eps.events[:, -1]\<close>).
\<close>

record ('d, 'x, 's, 'm) env =
  find_events :: "'d \<Rightarrow> py_exception + event list"
  epochs :: "'d \<Rightarrow> event list \<Rightarrow> py_exception + ('x list \<times> int list)"
  train_test_split :: "'x list \<Rightarrow> nat list \<Rightarrow> nat \<Rightarrow>
    py_exception + ('x list \<times> 'x list \<times> nat list \<times> nat list)"
  fit_resample :: "nat \<Rightarrow> 'x list \<Rightarrow> nat list \<Rightarrow> py_exception + ('x list \<times> nat list)"
  fit_transform :: "'s \<Rightarrow> 'x list \<Rightarrow> py_exception + ('s \<times> 'x list)"
  transform :: "'s \<Rightarrow> 'x list \<Rightarrow> py_exception + 'x list"
  cross_val_score :: "'m \<Rightarrow> 'x list \<Rightarrow> nat list \<Rightarrow> nat \<Rightarrow> scoring \<Rightarrow> py_exception + real list"
  model_fit :: "'m \<Rightarrow> 'x list \<Rightarrow> nat list \<Rightarrow> py_exception + 'm"
  model_predict :: "'m \<Rightarrow> 'x list \<Rightarrow> py_exception + nat list"
  model_predict_proba :: "'m \<Rightarrow> 'x list \<Rightarrow> py_exception + real list list"
  mean_equal :: "nat list \<Rightarrow> nat list \<Rightarrow> real"
  f1_score :: "nat list \<Rightarrow> nat list \<Rightarrow> py_exception + real"

text \<open>\<open>__init__\<close> (lines 56-76) for a model object already looked up.\<close>

definition init :: "'m \<Rightarrow> ('x, 's, 'm) classifier" where
  "init m = \<lparr>model = m, mode = Train, sequence = [], cv_splits = 10, training_class = 1,
     scaler = None, prep_X = None, prep_Y = None, log_records = []\<rparr>"

text \<open>\<open>set_inference_mode\<close> (lines 254-259).\<close>

definition set_inference_mode :: "('x, 's, 'm) classifier \<Rightarrow> bool \<Rightarrow> ('x, 's, 'm) classifier" where
  "set_inference_mode self m = (if m then self\<lparr>mode := Predict\<rparr> else self\<lparr>mode := Train\<rparr>)"

definition logging :: "log_record \<Rightarrow> ('x, 's, 'm) classifier \<Rightarrow> ('x, 's, 'm) classifier" where
  "logging r self = self\<lparr>log_records := log_records self @ [r]\<rparr>"

section \<open>Preprocessing (\<open>Classifier.preprocess\<close>, lines 141-187)\<close>

text \<open>Line 153: \<open>events = events[events[:, 2] < 90]\<close>.\<close>

definition drop_events :: "event list \<Rightarrow> event list" where
  "drop_events events = filter (\<lambda>e. ev_code e < 90) events"

text \<open>\<open>np.unique\<close>: the sorted unique elements of an array.\<close>

definition np_unique :: "int list \<Rightarrow> int list" where
  "np_unique xs = sort (remdups xs)"

text \<open>Line 178: \<open>events[:, 2][events[:, 2] != self.training_class] = 3\<close>.\<close>

definition relabel :: "int \<Rightarrow> event list \<Rightarrow> event list" where
  "relabel c events = map (\<lambda>e. if ev_code e \<noteq> c then e\<lparr>ev_code := 3\<rparr> else e) events"

text \<open>Lines 178-187, common to both modes: relabel, build the epochs, log, return.\<close>

definition extract_epochs :: "('d, 'x, 's, 'm) env \<Rightarrow> ('x, 's, 'm) classifier \<Rightarrow> 'd \<Rightarrow> event list \<Rightarrow>
    ('x, 's, 'm) classifier \<times> (py_exception + ('x list \<times> int list))" where
  "extract_epochs env self data events =
     (case epochs env data (relabel (training_class self) events) of
        Inl ex \<Rightarrow> (self, Inl ex)
      | Inr (preprocessed, labels) \<Rightarrow>
          (logging (Data_preprocessed (length preprocessed)) self, Inr (preprocessed, labels)))"

text \<open>
  \<open>preprocess\<close>. In inference mode \<open>np.array(trial_events)\<close> of an empty list has one
  dimension, and \<open>events[:, 2]\<close> at line 178 then raises \<open>IndexError\<close>.
\<close>

definition preprocess :: "('d, 'x, 's, 'm) env \<Rightarrow> ('x, 's, 'm) classifier \<Rightarrow> 'd \<Rightarrow>
    ('x, 's, 'm) classifier \<times> (py_exception + ('x list \<times> int list))" where
  "preprocess env self data =
     (case find_events env data of
        Inl ex \<Rightarrow> (self, Inl ex)
      | Inr found \<Rightarrow>
          (let events = drop_events found in
           (case mode self of
              Train \<Rightarrow>
                extract_epochs env (self\<lparr>sequence := np_unique (map ev_code events)\<rparr>) data events
            | Predict \<Rightarrow>
                (case find_sequence (sequence self) events of
                   Inl ex \<Rightarrow> (self, Inl ex)
                 | Inr trial_events \<Rightarrow>
                     (let self1 = logging (Found_matching_events trial_events) self in
                      if trial_events = [] then (self1, Inl (IndexError ''too many indices for array''))
                      else extract_epochs env self1 data trial_events)))))"

text \<open>
  The spec's words for the stimulus sequence of training mode, for comparison with
  \<open>np_unique\<close>: the distinct codes in first-seen order.
\<close>

fun first_seen_from :: "int list \<Rightarrow> int list \<Rightarrow> int list" where
  "first_seen_from seen [] = seen"
| "first_seen_from seen (c # cs) =
     (if c \<in> set seen then first_seen_from seen cs else first_seen_from (seen @ [c]) cs)"

definition first_seen_order :: "int list \<Rightarrow> int list" where
  "first_seen_order cs = first_seen_from [] cs"

section \<open>Training (\<open>Classifier.train\<close>, \<open>cross_validate\<close>, \<open>evaluate\<close>)\<close>

text \<open>\<open>LabelEncoder.fit_transform\<close>: each label becomes its index among the sorted unique labels.\<close>

fun first_index :: "'a \<Rightarrow> 'a list \<Rightarrow> nat" where
  "first_index x [] = 0"
| "first_index x (y # ys) = (if x = y then 0 else Suc (first_index x ys))"

definition label_encode :: "int list \<Rightarrow> nat list" where
  "label_encode labels = map (\<lambda>l. first_index l (np_unique labels)) labels"

text \<open>\<open>cross_validate\<close> (lines 109-124).\<close>

definition cross_validate :: "('d, 'x, 's, 'm) env \<Rightarrow> ('x, 's, 'm) classifier \<Rightarrow> 'x list \<Rightarrow> nat list \<Rightarrow> nat \<Rightarrow>
    ('x, 's, 'm) classifier \<times> (py_exception + (real list \<times> real list))" where
  "cross_validate env self X y n_splits =
     (case cross_val_score env (model self) X y n_splits Accuracy of
        Inl ex \<Rightarrow> (self, Inl ex)
      | Inr cv_accuracy \<Rightarrow>
          (case cross_val_score env (model self) X y n_splits Weighted_f1 of
             Inl ex \<Rightarrow> (self, Inl ex)
           | Inr cv_f1 \<Rightarrow>
               (logging (CV_f1 cv_f1) (logging (CV_accuracy cv_accuracy) self),
                Inr (cv_accuracy, cv_f1))))"

text \<open>\<open>evaluate\<close> (lines 126-139). \<open>self.scaler\<close> is \<open>None\<close> until \<open>train\<close> sets it.\<close>

definition evaluate :: "('d, 'x, 's, 'm) env \<Rightarrow> ('x, 's, 'm) classifier \<Rightarrow> 'x list \<Rightarrow> nat list \<Rightarrow>
    ('x, 's, 'm) classifier \<times> (py_exception + (real \<times> real))" where
  "evaluate env self X y =
     (case scaler self of
        None \<Rightarrow> (self, Inl (AttributeError ''NoneType object has no attribute transform''))
      | Some sc \<Rightarrow>
          (case transform env sc X of
             Inl ex \<Rightarrow> (self, Inl ex)
           | Inr X' \<Rightarrow>
               (case model_predict env (model self) X' of
                  Inl ex \<Rightarrow> (self, Inl ex)
                | Inr y_pred \<Rightarrow>
                    (let accuracy = mean_equal env y_pred y in
                     (case f1_score env y y_pred of
                        Inl ex \<Rightarrow> (self, Inl ex)
                      | Inr f1 \<Rightarrow>
                          (logging (Eval_f1 f1) (logging (Eval_accuracy accuracy) self),
                           Inr (accuracy, f1)))))))"

text \<open>
  Lines 102-107 of \<open>train\<close>: what follows the split and the optional oversampling, given
  the two partitions and the full data set.
\<close>

definition fit_and_evaluate :: "('d, 'x, 's, 'm) env \<Rightarrow> ('x, 's, 'm) classifier \<Rightarrow> 's \<Rightarrow>
    'x list \<Rightarrow> nat list \<Rightarrow> 'x list \<Rightarrow> nat list \<Rightarrow> 'x list \<Rightarrow> nat list \<Rightarrow>
    ('x, 's, 'm) classifier \<times> (py_exception + unit)" where
  "fit_and_evaluate env self sc X_train y_train X_test y_test X y =
     (let self1 = logging (Training_data_shape (length X_train) (length y_train)) self in
      (case fit_transform env sc X_train of
         Inl ex \<Rightarrow> (self1, Inl ex)
       | Inr (sc', X_train') \<Rightarrow>
           (let self2 = self1\<lparr>scaler := Some sc'\<rparr> in
            (case cross_validate env self2 X y (cv_splits self2) of
               (self3, Inl ex) \<Rightarrow> (self3, Inl ex)
             | (self3, Inr cv) \<Rightarrow>
                 (case model_fit env (model self3) X_train' y_train of
                    Inl ex \<Rightarrow> (self3, Inl ex)
                  | Inr m \<Rightarrow>
                      (case evaluate env (self3\<lparr>model := m\<rparr>) X_test y_test of
                         (self4, Inl ex) \<Rightarrow> (self4, Inl ex)
                       | (self4, Inr scores) \<Rightarrow> (self4, Inr ())))))))"

text \<open>
  \<open>X.reshape(X.shape[0], -1)\<close> (lines 90 and 202). Each epoch is one row of \<open>X\<close>, so the
  list of rows stays as it is; with zero rows numpy cannot infer the second dimension and
  raises \<open>ValueError\<close>.
\<close>

definition reshape_rows :: "'x list \<Rightarrow> py_exception + 'x list" where
  "reshape_rows X =
     (if X = [] then Inl (ValueError ''cannot reshape array of size 0 into shape (0,newaxis)'')
      else Inr X)"

text \<open>\<open>train\<close> (lines 78-107).\<close>

definition train :: "('d, 'x, 's, 'm) env \<Rightarrow> ('x, 's, 'm) classifier \<Rightarrow> 'd \<Rightarrow> 's \<Rightarrow> bool \<Rightarrow> nat \<Rightarrow>
    ('x, 's, 'm) classifier \<times> (py_exception + unit)" where
  "train env self data sc oversample random_state =
     (case preprocess env self data of
        (self1, Inl ex) \<Rightarrow> (self1, Inl ex)
      | (self1, Inr (prep_data, labels)) \<Rightarrow>
          (case reshape_rows prep_data of
             Inl ex \<Rightarrow> (self1, Inl ex)
           | Inr X \<Rightarrow>
               (let y = label_encode labels;
                    self2 = self1\<lparr>prep_X := Some X, prep_Y := Some y\<rparr> in
                (case train_test_split env X y random_state of
                   Inl ex \<Rightarrow> (self2, Inl ex)
                 | Inr (X_train, X_test, y_train, y_test) \<Rightarrow>
                     (if oversample then
                        (case fit_resample env random_state X_train y_train of
                           Inl ex \<Rightarrow> (self2, Inl ex)
                         | Inr (X_train', y_train') \<Rightarrow>
                             fit_and_evaluate env self2 sc X_train' y_train' X_test y_test X y)
                      else fit_and_evaluate env self2 sc X_train y_train X_test y_test X y)))))"

text \<open>
  Modelled from the spec: \<open>RandomOverSampler(sampling_strategy='minority').fit_resample\<close>
  of imbalanced-learn, the oversampler that \<open>train\<close> constructs at line 88; the library is
  not among the sources. In the spec's words it duplicates minority-class training
  samples to equalize class counts, the minority class being determined by count, not by
  label. The rows given are kept and the duplicates follow them; which rows of the
  minority class are duplicated is random, and \<open>draws\<close> gives the draws. The library
  refuses \<open>X\<close> and \<open>y\<close> of different lengths and a target with fewer than two classes.
\<close>

definition minority_class :: "nat list \<Rightarrow> nat" where
  "minority_class y = arg_min_list (count_list y) (sort (remdups y))"

definition n_majority :: "nat list \<Rightarrow> nat" where
  "n_majority y = Max (set (map (count_list y) y))"

definition random_over_sampler :: "(nat \<Rightarrow> nat) \<Rightarrow> 'x list \<Rightarrow> nat list \<Rightarrow>
    py_exception + ('x list \<times> nat list)" where
  "random_over_sampler draws X y =
     (if length X \<noteq> length y then Inl (ValueError ''inconsistent numbers of samples'')
      else if length (remdups y) \<le> 1 then
        Inl (ValueError ''The target y needs to have more than 1 class'')
      else
        (let c = minority_class y;
             num_samples = n_majority y - count_list y c;
             target_class_indices = filter (\<lambda>i. y ! i = c) [0..<length y];
             bootstrap_indices =
               map (\<lambda>i. target_class_indices ! (draws i mod length target_class_indices))
                 [0..<num_samples]
         in Inr (X @ map ((!) X) bootstrap_indices, y @ map ((!) y) bootstrap_indices)))"

section \<open>Prediction (\<open>Classifier.predict\<close>, \<open>group_predictions\<close>)\<close>

definition predict_class :: "('d, 'x, 's, 'm) env \<Rightarrow> ('x, 's, 'm) classifier \<Rightarrow> 'x list \<Rightarrow>
    py_exception + nat list" where
  "predict_class env self X = model_predict env (model self) X"

definition predict_probabilities :: "('d, 'x, 's, 'm) env \<Rightarrow> ('x, 's, 'm) classifier \<Rightarrow> 'x list \<Rightarrow>
    py_exception + real list list" where
  "predict_probabilities env self X = model_predict_proba env (model self) X"

text \<open>\<open>y[:, 1]\<close> of a matrix given by its rows.\<close>

definition column_1 :: "real list list \<Rightarrow> py_exception + real list" where
  "column_1 y =
     (if \<forall>row \<in> set y. 1 < length row then Inr (map (\<lambda>row. row ! 1) y)
      else Inl (IndexError ''index 1 is out of bounds for axis 1''))"

text \<open>
  Modelled from the spec: \<open>normalize(y_1, method='softmax')\<close> of
  \<open>opencortex.validation.cross_val\<close>, which is not among the sources; the spec calls it a
  softmax transform. The scores are real numbers here, not floating-point numbers.
\<close>

definition normalize_softmax :: "real list \<Rightarrow> real list" where
  "normalize_softmax ys = map (\<lambda>v. exp v / sum_list (map exp ys)) ys"

text \<open>\<open>np.round(y, decimals)\<close> on real numbers: to the nearest multiple, halves to the even one.\<close>

definition round_half_even :: "real \<Rightarrow> int" where
  "round_half_even v =
     (let f = \<lfloor>v\<rfloor>; d = v - of_int f in
      if d < 1 / 2 then f else if 1 / 2 < d then f + 1 else if even f then f else f + 1)"

definition np_round :: "nat \<Rightarrow> real \<Rightarrow> real" where
  "np_round decimals v = of_int (round_half_even (v * 10 ^ decimals)) / 10 ^ decimals"

text \<open>\<open>np.argmax\<close>: the index of the first occurrence of the maximum; an empty array raises.\<close>

definition np_argmax :: "'a::linorder list \<Rightarrow> py_exception + nat" where
  "np_argmax ys =
     (if ys = [] then Inl (ValueError ''attempt to get argmax of an empty sequence'')
      else Inr (first_index (Max (set ys)) ys))"

text \<open>
  The dictionary that \<open>group_predictions\<close> returns, in insertion order. The key is
  \<open>'class'\<close> or \<open>str(code)\<close> of a stimulus code; \<open>str\<close> is injective on the integers and
  never gives \<open>'class'\<close>.
\<close>

datatype out_key = Key_class | Key_code int

datatype out_value = Class_index nat | Score real | Label nat

fun dict_set :: "'k \<Rightarrow> 'v \<Rightarrow> ('k \<times> 'v) list \<Rightarrow> ('k \<times> 'v) list" where
  "dict_set k v [] = [(k, v)]"
| "dict_set k v ((k', v') # kvs) = (if k = k' then (k, v) # kvs else (k', v') # dict_set k v kvs)"

fun dict_get :: "('k \<times> 'v) list \<Rightarrow> 'k \<Rightarrow> 'v option" where
  "dict_get [] k = None"
| "dict_get ((k', v') # kvs) k = (if k = k' then Some v' else dict_get kvs k)"

text \<open>
  The loop \<open>for idx, prediction in enumerate(seq): output[str(seq[idx])] = y[idx]\<close> of lines
  234-235 and 238-239.
\<close>

fun fill_output :: "(nat \<times> int) list \<Rightarrow> out_value list \<Rightarrow> (out_key \<times> out_value) list \<Rightarrow>
    py_exception + (out_key \<times> out_value) list" where
  "fill_output [] ys output = Inr output"
| "fill_output ((idx, prediction) # rest) ys output =
     (if idx < length ys then fill_output rest ys (dict_set (Key_code prediction) (ys ! idx) output)
      else Inl (IndexError ''index out of bounds''))"

text \<open>\<open>group_predictions\<close> (lines 225-240).\<close>

definition group_predictions :: "('d, 'x, 's, 'm) env \<Rightarrow> ('x, 's, 'm) classifier \<Rightarrow> 'x list \<Rightarrow> bool \<Rightarrow>
    py_exception + (out_key \<times> out_value) list" where
  "group_predictions env self X proba =
     (let seq = sequence self in
      if proba then
        (case predict_probabilities env self X of
           Inl ex \<Rightarrow> Inl ex
         | Inr y \<Rightarrow>
             (case column_1 y of
                Inl ex \<Rightarrow> Inl ex
              | Inr y_1 \<Rightarrow>
                  (let y_1 = map (np_round 4) (normalize_softmax y_1) in
                   (case np_argmax y_1 of
                      Inl ex \<Rightarrow> Inl ex
                    | Inr i \<Rightarrow>
                        fill_output (enumerate 0 seq) (map Score y_1) [(Key_class, Class_index (i + 1))]))))
      else
        (case predict_class env self X of
           Inl ex \<Rightarrow> Inl ex
         | Inr y \<Rightarrow>
             (case np_argmax y of
                Inl ex \<Rightarrow> Inl ex
              | Inr i \<Rightarrow>
                  fill_output (enumerate 0 seq) (map Label y) [(Key_class, Class_index (i + 1))])))"

text \<open>What \<open>predict\<close> returns: \<open>None\<close> or one of the three kinds of result.\<close>

datatype prediction =
  Classes "nat list"
  | Probabilities "real list list"
  | Grouped "(out_key \<times> out_value) list"

text \<open>
  \<open>predict\<close> (lines 189-207); \<open>group'\<close> is its parameter \<open>group\<close>. \<open>except Exception\<close>
  encloses the call of \<open>preprocess\<close> only; the \<open>reshape\<close> of line 202 comes after it.
\<close>

definition predict :: "('d, 'x, 's, 'm) env \<Rightarrow> ('x, 's, 'm) classifier \<Rightarrow> 'd \<Rightarrow> bool \<Rightarrow> bool \<Rightarrow>
    ('x, 's, 'm) classifier \<times> (py_exception + prediction option)" where
  "predict env self data proba group' =
     (case preprocess env self data of
        (self1, Inl ex) \<Rightarrow> (logging (Error_while_preprocessing ex) self1, Inr None)
      | (self1, Inr (prep_data, labels)) \<Rightarrow>
          (case reshape_rows prep_data of
             Inl ex \<Rightarrow> (self1, Inl ex)
           | Inr X \<Rightarrow>
               (case scaler self1 of
                  None \<Rightarrow> (self1, Inl (AttributeError ''NoneType object has no attribute transform''))
                | Some sc \<Rightarrow>
                    (case transform env sc X of
                       Inl ex \<Rightarrow> (self1, Inl ex)
                     | Inr X' \<Rightarrow>
                         (if \<not> group' then
                            (if \<not> proba then
                               (self1, map_sum id (\<lambda>r. Some (Classes r)) (predict_class env self1 X'))
                             else
                               (self1, map_sum id (\<lambda>r. Some (Probabilities r))
                                  (predict_probabilities env self1 X')))
                          else
                            (self1, map_sum id (\<lambda>r. Some (Grouped r))
                               (group_predictions env self1 X' proba)))))))"

section \<open>Example data\<close>

text \<open>Events for the examples: sample index and code, previous trigger value 0.\<close>

definition mk_event :: "int \<Rightarrow> int \<Rightarrow> event" where
  "mk_event s c = \<lparr>ev_sample = s, ev_prev = 0, ev_code = c\<rparr>"




text \<open>
  Collaborators for the examples. A recording is given by the events found in it, an
  epoch by the sample index of its event; the split holds out the last row, the
  oversampler doubles the partition, the scaler is the identity, a model counts the
  times it was fit and predicts class 0 with probabilities 1 and 0; the accuracy is the
  fraction of equal labels.
\<close>

definition env0 :: "(event list, int, unit, nat) env" where
  "env0 = \<lparr>find_events = (\<lambda>d. Inr d),
     epochs = (\<lambda>d evs. Inr (map ev_sample evs, map ev_code evs)),
     train_test_split = (\<lambda>X y seed. Inr (butlast X, [last X], butlast y, [last y])),
     fit_resample = (\<lambda>seed X y. Inr (X @ X, y @ y)),
     fit_transform = (\<lambda>sc X. Inr (sc, X)),
     transform = (\<lambda>sc X. Inr X),
     cross_val_score = (\<lambda>m X y n s. Inr [1]),
     model_fit = (\<lambda>m X y. Inr (Suc m)),
     model_predict = (\<lambda>m X. Inr (map (\<lambda>x. 0) X)),
     model_predict_proba = (\<lambda>m X. Inr (map (\<lambda>x. [1, 0]) X)),
     mean_equal = (\<lambda>a b. real (length (filter (\<lambda>(p, q). p = q) (zip a b))) / real (length b)),
     f1_score = (\<lambda>a b. Inr 1)\<rparr>"

text \<open>A classifier as \<open>__init__\<close> leaves it, with a model that was never fit.\<close>

definition clf0 :: "(int, unit, nat) classifier" where
  "clf0 = init 0"

text \<open>A training recording: codes 2, 1, 99, 2, 3.\<close>

definition recording1 :: "event list" where
  "recording1 = [mk_event 0 2, mk_event 10 1, mk_event 20 99, mk_event 30 2, mk_event 40 3]"

text \<open>The same collaborators with a cross-validation that raises.\<close>

definition env_cv_fails :: "(event list, int, unit, nat) env" where
  "env_cv_fails = env0\<lparr>cross_val_score :=
     (\<lambda>m X y n s. Inl (ValueError ''n_splits=10 cannot be greater than the number of samples''))\<rparr>"

text \<open>The same collaborators with a model that gives two rows of class probabilities.\<close>

definition env_proba :: "(event list, int, unit, nat) env" where
  "env_proba = env0\<lparr>model_predict_proba := (\<lambda>m X. Inr [[1, 0], [1 - ln 2, ln 2]])\<rparr>"

text \<open>A classifier after training on the codes 1 and 2, switched to inference mode.\<close>

definition clf_trained :: "(int, unit, nat) classifier" where
  "clf_trained = clf0\<lparr>model := 1, mode := Predict, sequence := [1, 2], scaler := Some ()\<rparr>"

text \<open>
  The same collaborators with an epoching that, as MNE does, drops the epochs whose
  window does not fit into the recording: here those of the events before sample 1000.
\<close>

definition env_edge :: "(event list, int, unit, nat) env" where
  "env_edge = env0\<lparr>epochs :=
     (\<lambda>d evs. Inr (map ev_sample (filter (\<lambda>e. 1000 \<le> ev_sample e) evs),
        map ev_code (filter (\<lambda>e. 1000 \<le> ev_sample e) evs)))\<rparr>"

section \<open>Properties of the scan\<close>

lemma scan_state:
  "j < length seq \<Longrightarrow> length t = j \<Longrightarrow>
   \<exists>j' t'. scan seq j t es = Inr (j', t') \<and> j' \<le> length seq \<and> length t' = j'"
proof (induction es arbitrary: j t)
  case Nil
  then show ?case by simp
next
  case (Cons e es)
  show ?case
  proof (cases "ev_code e = seq ! j")
    case True
    show ?thesis
    proof (cases "Suc j = length seq")
      case True
      with \<open>ev_code e = seq ! j\<close> Cons.prems show ?thesis by simp
    next
      case False
      with Cons.prems have "Suc j < length seq" by simp
      from Cons.IH [OF this, of "t @ [e]"] Cons.prems True False
      show ?thesis by simp
    qed
  next
    case False
    from Cons.prems have "0 < length seq" by auto
    from Cons.IH [OF this, of "[]"] Cons.prems False
    show ?thesis by simp
  qed
qed

lemma scan_shape:
  "j < length seq \<Longrightarrow> length t = j \<Longrightarrow> map ev_code t = take j seq \<Longrightarrow>
   scan seq j t es = Inr (j', t') \<Longrightarrow>
   \<exists>a b q. es = a @ b \<and> t @ a = q @ t' \<and> scan seq j t a = Inr (j', t') \<and>
     map ev_code t' = take j' seq \<and>
     (j' < length seq \<longrightarrow> b = []) \<and>
     (j' = length seq \<longrightarrow>
        (\<forall>m < length a. \<exists>j1 t1. scan seq j t (take m es) = Inr (j1, t1) \<and> j1 < length seq))"
proof (induction es arbitrary: j t)
  case Nil
  then show ?case by auto
next
  case (Cons e es)
  show ?case
  proof (cases "ev_code e = seq ! j")
    case match: True
    show ?thesis
    proof (cases "Suc j = length seq")
      case True
      with match Cons.prems have r: "j' = Suc j" "t' = t @ [e]" by auto
      have codes: "map ev_code (t @ [e]) = take (Suc j) seq"
        using Cons.prems match by (simp add: take_Suc_conv_app_nth)
      have "e # es = [e] @ es \<and> t @ [e] = [] @ t' \<and> scan seq j t [e] = Inr (j', t')"
        using r match True Cons.prems by simp
      moreover have "map ev_code t' = take j' seq" using codes r by simp
      moreover have "\<forall>m < length [e]. \<exists>j1 t1. scan seq j t (take m (e # es)) = Inr (j1, t1) \<and> j1 < length seq"
        using Cons.prems by simp
      moreover have "\<not> j' < length seq" using r True by simp
      ultimately show ?thesis by blast
    next
      case False
      with Cons.prems have lt: "Suc j < length seq" by simp
      have len: "length (t @ [e]) = Suc j" using Cons.prems by simp
      have codes: "map ev_code (t @ [e]) = take (Suc j) seq"
        using Cons.prems match by (simp add: take_Suc_conv_app_nth)
      have run: "scan seq (Suc j) (t @ [e]) es = Inr (j', t')"
        using Cons.prems match False by simp
      from Cons.IH [OF lt len codes run] obtain a b q where
        ih: "es = a @ b" "(t @ [e]) @ a = q @ t'" "scan seq (Suc j) (t @ [e]) a = Inr (j', t')"
          "map ev_code t' = take j' seq" "j' < length seq \<longrightarrow> b = []"
          "j' = length seq \<longrightarrow> (\<forall>m < length a. \<exists>j1 t1.
              scan seq (Suc j) (t @ [e]) (take m es) = Inr (j1, t1) \<and> j1 < length seq)"
        by blast
      have "e # es = (e # a) @ b" using ih(1) by simp
      moreover have "t @ (e # a) = q @ t'" using ih(2) by simp
      moreover have "scan seq j t (e # a) = Inr (j', t')"
        using ih(3) Cons.prems match False by simp
      moreover have "j' = length seq \<longrightarrow> (\<forall>m < length (e # a). \<exists>j1 t1.
          scan seq j t (take m (e # es)) = Inr (j1, t1) \<and> j1 < length seq)"
      proof (intro impI allI)
        fix m
        assume full: "j' = length seq" and m: "m < length (e # a)"
        show "\<exists>j1 t1. scan seq j t (take m (e # es)) = Inr (j1, t1) \<and> j1 < length seq"
        proof (cases m)
          case 0
          then show ?thesis using Cons.prems by simp
        next
          case (Suc m')
          with m have "m' < length a" by simp
          with ih(6) full obtain j1 t1 where
            "scan seq (Suc j) (t @ [e]) (take m' es) = Inr (j1, t1)" "j1 < length seq"
            by blast
          then show ?thesis using Suc Cons.prems match False by simp
        qed
      qed
      ultimately show ?thesis using ih(4) ih(5) by blast
    qed
  next
    case False
    from Cons.prems have pos: "0 < length seq" by auto
    have run: "scan seq 0 [] es = Inr (j', t')"
      using Cons.prems False by simp
    have "length ([]::event list) = 0" "map ev_code [] = take 0 seq" by simp_all
    from Cons.IH [OF pos this run] obtain a b q where
      ih: "es = a @ b" "[] @ a = q @ t'" "scan seq 0 [] a = Inr (j', t')"
        "map ev_code t' = take j' seq" "j' < length seq \<longrightarrow> b = []"
        "j' = length seq \<longrightarrow> (\<forall>m < length a. \<exists>j1 t1.
            scan seq 0 [] (take m es) = Inr (j1, t1) \<and> j1 < length seq)"
      by blast
    have "e # es = (e # a) @ b" using ih(1) by simp
    moreover have "t @ (e # a) = (t @ e # q) @ t'" using ih(2) by simp
    moreover have "scan seq j t (e # a) = Inr (j', t')"
      using ih(3) Cons.prems False by simp
    moreover have "j' = length seq \<longrightarrow> (\<forall>m < length (e # a). \<exists>j1 t1.
        scan seq j t (take m (e # es)) = Inr (j1, t1) \<and> j1 < length seq)"
    proof (intro impI allI)
      fix m
      assume full: "j' = length seq" and m: "m < length (e # a)"
      show "\<exists>j1 t1. scan seq j t (take m (e # es)) = Inr (j1, t1) \<and> j1 < length seq"
      proof (cases m)
        case 0
        then show ?thesis using Cons.prems by simp
      next
        case (Suc m')
        with m have "m' < length a" by simp
        with ih(6) full obtain j1 t1 where
          "scan seq 0 [] (take m' es) = Inr (j1, t1)" "j1 < length seq"
          by blast
        then show ?thesis using Suc Cons.prems False by simp
      qed
    qed
    ultimately show ?thesis using ih(4) ih(5) by blast
  qed
qed


lemma find_sequence_cases:
  assumes "seq \<noteq> []"
  shows "\<exists>j t. scan seq 0 [] events = Inr (j, t) \<and> j \<le> length seq \<and> length t = j \<and>
    find_sequence seq events = (if j < length seq then Inl not_enough_events else Inr t)"
proof -
  from assms have "0 < length seq" by simp
  from scan_state [OF this, of "[]" events] obtain j t where
    r: "scan seq 0 [] events = Inr (j, t)" "j \<le> length seq" "length t = j"
    by auto
  then have "find_sequence seq events = (if j < length seq then Inl not_enough_events else Inr t)"
    by (simp add: find_sequence_def)
  with r show ?thesis by blast
qed

lemma find_sequence_shape:
  assumes "seq \<noteq> []" and "find_sequence seq events = Inr cand"
  shows "\<exists>q b. events = q @ cand @ b \<and> length cand = length seq \<and> map ev_code cand = seq \<and>
    scan seq 0 [] (q @ cand) = Inr (length seq, cand) \<and>
    (\<forall>m < length q + length seq. find_sequence seq (take m events) = Inl not_enough_events)"
proof -
  from find_sequence_cases [OF assms(1), of events] obtain j t where
    r: "scan seq 0 [] events = Inr (j, t)" "j \<le> length seq" "length t = j"
      "find_sequence seq events = (if j < length seq then Inl not_enough_events else Inr t)"
    by blast
  with assms(2) have full: "j = length seq" and t: "t = cand"
    by (auto split: if_splits)
  from assms(1) have pos: "0 < length seq" by simp
  have "length ([]::event list) = 0" "map ev_code [] = take 0 seq" by simp_all
  from scan_shape [OF pos this r(1)] obtain a b q where
    sh: "events = a @ b" "[] @ a = q @ t" "scan seq 0 [] a = Inr (j, t)"
      "map ev_code t = take j seq"
      "j = length seq \<longrightarrow> (\<forall>m < length a. \<exists>j1 t1.
          scan seq 0 [] (take m events) = Inr (j1, t1) \<and> j1 < length seq)"
    by blast
  have a: "a = q @ cand" using sh(2) t by simp
  have len: "length cand = length seq" using r(3) full t by simp
  have "\<forall>m < length q + length seq. find_sequence seq (take m events) = Inl not_enough_events"
  proof (intro allI impI)
    fix m
    assume "m < length q + length seq"
    then have "m < length a" using a len by simp
    with sh(5) full obtain j1 t1 where
      p: "scan seq 0 [] (take m events) = Inr (j1, t1)" "j1 < length seq"
      by blast
    from scan_state [OF pos, of "[]" "take m events"] p(1) have "length t1 = j1" by auto
    with p show "find_sequence seq (take m events) = Inl not_enough_events"
      by (simp add: find_sequence_def)
  qed
  moreover have "events = q @ cand @ b" using sh(1) a by simp
  moreover have "map ev_code cand = seq" using sh(4) full t by simp
  moreover have "scan seq 0 [] (q @ cand) = Inr (length seq, cand)"
    using sh(3) a full t by simp
  ultimately show ?thesis using len by blast
qed









section \<open>The matcher: claims\<close>






text \<open>
  C4. With a non-empty sequence the loop always ends in a state \<open>(j, trial_events)\<close> with
  \<open>len(trial_events) = j \<le> k\<close>. When the stream is exhausted before the match is complete
  (\<open>j < k\<close>) the matcher raises the not-enough-events \<open>ValueError\<close>; it returns a candidate
  only when it is complete. In particular a stream in which the sequence does not occur
  as consecutive codes raises.
\<close>

theorem exhausted_stream_raises:
  assumes "seq \<noteq> []"
  shows "(\<exists>j t. scan seq 0 [] events = Inr (j, t) \<and> j \<le> length seq \<and> length t = j \<and>
            find_sequence seq events = (if j < length seq then Inl not_enough_events else Inr t)) \<and>
         ((\<forall>s. take (length seq) (drop s (map ev_code events)) \<noteq> seq) \<longrightarrow>
            find_sequence seq events = Inl not_enough_events)"
proof
  show "\<exists>j t. scan seq 0 [] events = Inr (j, t) \<and> j \<le> length seq \<and> length t = j \<and>
      find_sequence seq events = (if j < length seq then Inl not_enough_events else Inr t)"
    by (rule find_sequence_cases [OF assms])
next
  show "(\<forall>s. take (length seq) (drop s (map ev_code events)) \<noteq> seq) \<longrightarrow>
      find_sequence seq events = Inl not_enough_events"
  proof
    assume none: "\<forall>s. take (length seq) (drop s (map ev_code events)) \<noteq> seq"
    from find_sequence_cases [OF assms, of events] obtain j t where
      r: "find_sequence seq events = (if j < length seq then Inl not_enough_events else Inr t)"
      by blast
    show "find_sequence seq events = Inl not_enough_events"
    proof (cases "j < length seq")
      case True
      with r show ?thesis by simp
    next
      case False
      with r have "find_sequence seq events = Inr t" by simp
      from find_sequence_shape [OF assms this] obtain q b where
        "events = q @ t @ b" "length t = length seq" "map ev_code t = seq"
        by blast
      then have "take (length seq) (drop (length q) (map ev_code events)) = seq"
        by (simp add: drop_map take_map)
      with none show ?thesis by blast
    qed
  qed
qed

theorem exhausted_stream_raises_witness:
  "[1, 2, 3] \<noteq> ([]::int list) \<and>
   scan [1, 2, 3] 0 [] [mk_event 0 1, mk_event 10 2] = Inr (2, [mk_event 0 1, mk_event 10 2]) \<and>
   find_sequence [1, 2, 3] [mk_event 0 1, mk_event 10 2] = Inl not_enough_events"
proof -
  have h1: "[1, 2, 3] \<noteq> ([]::int list)" by simp
  have s: "scan [1, 2, 3] 0 [] [mk_event 0 1, mk_event 10 2] = Inr (2, [mk_event 0 1, mk_event 10 2])"
    by (simp add: mk_event_def)
  from exhausted_stream_raises [OF h1, of "[mk_event 0 1, mk_event 10 2]"] h1 s
  show ?thesis by auto
qed

section \<open>Properties of preprocessing\<close>

lemma logging_fields [simp]:
  "model (logging r self) = model self"
  "mode (logging r self) = mode self"
  "scaler (logging r self) = scaler self"
  "cv_splits (logging r self) = cv_splits self"
  "training_class (logging r self) = training_class self"
  "prep_X (logging r self) = prep_X self"
  "prep_Y (logging r self) = prep_Y self"
  "log_records (logging r self) = log_records self @ [r]"
  by (simp_all add: logging_def)

lemma sequence_logging [simp]: "sequence (logging r self) = sequence self"
  by (simp add: logging_def)

lemma sequence_extract_epochs [simp]:
  "sequence (fst (extract_epochs env self data events)) = sequence self"
  by (simp add: extract_epochs_def split: sum.splits prod.splits)

lemma preprocess_train_sequence:
  "mode self = Train \<Longrightarrow> find_events env data = Inr found \<Longrightarrow>
   sequence (fst (preprocess env self data)) = np_unique (map ev_code (drop_events found))"
  by (simp add: preprocess_def Let_def)

lemma first_seen_from_props:
  "distinct seen \<Longrightarrow>
   distinct (first_seen_from seen cs) \<and> set (first_seen_from seen cs) = set seen \<union> set cs"
  by (induction cs arbitrary: seen) auto

lemma first_seen_order_props:
  "distinct (first_seen_order cs) \<and> set (first_seen_order cs) = set cs"
  using first_seen_from_props [of "[]" cs] by (simp add: first_seen_order_def)

lemma np_unique_props:
  "sorted (np_unique xs) \<and> distinct (np_unique xs) \<and> set (np_unique xs) = set xs"
  by (simp add: np_unique_def)

lemma np_unique_first_seen: "np_unique xs = sort (first_seen_order xs)"
proof -
  have "sorted (sort (first_seen_order xs))" "distinct (sort (first_seen_order xs))"
    "set (sort (first_seen_order xs)) = set xs"
    using first_seen_order_props [of xs] by simp_all
  then show ?thesis using np_unique_props [of xs]
    by (metis sorted_distinct_set_unique)
qed

lemma scan_subset:
  "scan seq j t es = Inr (j', t') \<Longrightarrow> set t' \<subseteq> set t \<union> set es"
proof (induction es arbitrary: j t)
  case Nil
  then show ?case by auto
next
  case (Cons e es)
  then show ?case by (fastforce split: if_splits)
qed

lemma find_sequence_subset:
  "find_sequence seq events = Inr trial_events \<Longrightarrow> set trial_events \<subseteq> set events"
  using scan_subset [of seq 0 "[]" events]
  by (auto simp: find_sequence_def split: sum.splits if_splits)

lemma relabel_codes:
  "map ev_code (relabel c events) = map (\<lambda>x. if x = c then c else 3) (map ev_code events)"
  by (induction events) (simp_all add: relabel_def)

lemma count_two_values:
  "c \<noteq> (3::int) \<Longrightarrow>
   length (filter (\<lambda>x. x = c) (map (\<lambda>x. if x = c then c else 3) xs)) +
   length (filter (\<lambda>x. x = 3) (map (\<lambda>x. if x = c then c else 3) xs)) = length xs"
  by (induction xs) auto

text \<open>The example recording, preprocessed in training mode, split and encoded.\<close>

lemma preprocess_recording1:
  "find_events env (recording1::event list) = Inr recording1 \<Longrightarrow>
   epochs env = (\<lambda>d evs. Inr (map ev_sample evs, map ev_code evs)) \<Longrightarrow>
   preprocess env clf0 recording1 =
     (logging (Data_preprocessed 4) (clf0\<lparr>sequence := [1, 2, 3]\<rparr>),
      Inr ([0, 10, 30, 40], [3, 1, 3, 3]))"
  by (simp add: preprocess_def extract_epochs_def clf0_def init_def recording1_def mk_event_def
      drop_events_def relabel_def np_unique_def logging_def Let_def)

lemma label_encode_recording1: "label_encode [3, 1, 3, 3] = [1, 0, 1, 1]"
  by (simp add: label_encode_def np_unique_def)

section \<open>Preprocessing: claims\<close>

text \<open>
  C3, as stated: in training mode the stimulus sequence is the distinct retained codes in
  first-seen order. It fails: \<open>np.unique\<close> sorts. For the retained codes 2, 1 the sequence
  is 1, 2 and the first-seen order is 2, 1.
\<close>

theorem training_sequence_not_first_seen:
  "sequence (fst (preprocess env0 clf0 [mk_event 0 2, mk_event 10 1])) = [1, 2] \<and>
   first_seen_order (map ev_code (drop_events [mk_event 0 2, mk_event 10 1])) = [2, 1] \<and>
   sequence (fst (preprocess env0 clf0 [mk_event 0 2, mk_event 10 1])) \<noteq>
     first_seen_order (map ev_code (drop_events [mk_event 0 2, mk_event 10 1]))"
  by (simp add: preprocess_def env0_def clf0_def init_def drop_events_def mk_event_def
      np_unique_def first_seen_order_def Let_def)

text \<open>
  C3, amended: in training mode, after the events with code \<open>\<ge> 90\<close> are discarded, the
  stimulus sequence is set to the distinct retained codes in ascending order: the
  first-seen order, sorted.
\<close>

theorem training_sequence_sorted_unique:
  assumes "mode self = Train" and "find_events env data = Inr found"
  shows "sequence (fst (preprocess env self data)) =
           sort (first_seen_order (map ev_code (drop_events found))) \<and>
         sorted (sequence (fst (preprocess env self data))) \<and>
         distinct (sequence (fst (preprocess env self data))) \<and>
         set (sequence (fst (preprocess env self data))) =
           {c. c < 90 \<and> (\<exists>e \<in> set found. ev_code e = c)}"
proof -
  have s: "sequence (fst (preprocess env self data)) = np_unique (map ev_code (drop_events found))"
    by (rule preprocess_train_sequence [OF assms])
  have "set (map ev_code (drop_events found)) = {c. c < 90 \<and> (\<exists>e \<in> set found. ev_code e = c)}"
    by (auto simp: drop_events_def)
  then show ?thesis
    using s np_unique_props [of "map ev_code (drop_events found)"]
      np_unique_first_seen [of "map ev_code (drop_events found)"]
    by simp
qed

theorem training_sequence_sorted_unique_witness:
  "mode clf0 = Train \<and> find_events env0 recording1 = Inr recording1 \<and>
   sequence (fst (preprocess env0 clf0 recording1)) = [1, 2, 3]"
proof -
  have h1: "mode clf0 = Train" by (simp add: clf0_def init_def)
  have h2: "find_events env0 recording1 = Inr recording1" by (simp add: env0_def)
  have "sort (first_seen_order (map ev_code (drop_events recording1))) = [1, 2, 3]"
    by (simp add: recording1_def drop_events_def mk_event_def first_seen_order_def)
  with training_sequence_sorted_unique [OF h1 h2] h1 h2 show ?thesis by simp
qed

text \<open>
  C5, as stated: after relabeling the set of label values is exactly \<open>{c, 3}\<close>. It fails
  for a list with no event of code \<open>c\<close> (and for one with no other event): one retained
  event of code 2 and \<open>c = 1\<close> give the label set \<open>{3}\<close>.
\<close>

theorem relabel_label_set_not_exact:
  "set (map ev_code (relabel 1 [mk_event 0 2])) \<noteq> {1, 3}"
  by (simp add: relabel_def mk_event_def)

text \<open>
  C5, amended: after relabeling, an event whose code equals \<open>c\<close> keeps code \<open>c\<close> and every
  other event has code 3, the sample indices being kept; the set of label values is a
  subset of \<open>{c, 3}\<close>, and exactly \<open>{c, 3}\<close> when the list holds an event of code \<open>c\<close> and
  an event of another code; for \<open>c \<noteq> 3\<close> the number of \<open>c\<close>-labeled events plus the
  number of 3-labeled events is the number of retained events.
\<close>

theorem relabel_two_labels:
  "map ev_code (relabel c events) = map (\<lambda>x. if x = c then c else 3) (map ev_code events) \<and>
   map ev_sample (relabel c events) = map ev_sample events \<and>
   set (map ev_code (relabel c events)) \<subseteq> {c, 3} \<and>
   (c \<noteq> 3 \<longrightarrow>
      length (filter (\<lambda>x. x = c) (map ev_code (relabel c events))) +
      length (filter (\<lambda>x. x = 3) (map ev_code (relabel c events))) = length events) \<and>
   ((\<exists>e \<in> set events. ev_code e = c) \<and> (\<exists>e \<in> set events. ev_code e \<noteq> c) \<longrightarrow>
      set (map ev_code (relabel c events)) = {c, 3})"
proof (intro conjI impI)
  show "map ev_code (relabel c events) = map (\<lambda>x. if x = c then c else 3) (map ev_code events)"
    by (rule relabel_codes)
  show "map ev_sample (relabel c events) = map ev_sample events"
    by (induction events) (simp_all add: relabel_def)
  show "set (map ev_code (relabel c events)) \<subseteq> {c, 3}"
    by (auto simp: relabel_codes)
  show "length (filter (\<lambda>x. x = c) (map ev_code (relabel c events))) +
      length (filter (\<lambda>x. x = 3) (map ev_code (relabel c events))) = length events"
    if "c \<noteq> 3"
    using count_two_values [OF that, of "map ev_code events"] by (simp add: relabel_codes)
  show "set (map ev_code (relabel c events)) = {c, 3}"
    if "(\<exists>e \<in> set events. ev_code e = c) \<and> (\<exists>e \<in> set events. ev_code e \<noteq> c)"
    using that by (auto simp: relabel_codes)
qed

theorem relabel_two_labels_witness:
  "(1::int) \<noteq> 3 \<and>
   (\<exists>e \<in> set [mk_event 0 1, mk_event 10 2, mk_event 20 4]. ev_code e = 1) \<and>
   (\<exists>e \<in> set [mk_event 0 1, mk_event 10 2, mk_event 20 4]. ev_code e \<noteq> 1) \<and>
   map ev_code (relabel 1 [mk_event 0 1, mk_event 10 2, mk_event 20 4]) = [1, 3, 3] \<and>
   set (map ev_code (relabel 1 [mk_event 0 1, mk_event 10 2, mk_event 20 4])) = {1, 3} \<and>
   length (filter (\<lambda>x. x = 1) (map ev_code (relabel 1 [mk_event 0 1, mk_event 10 2, mk_event 20 4]))) +
   length (filter (\<lambda>x. x = 3) (map ev_code (relabel 1 [mk_event 0 1, mk_event 10 2, mk_event 20 4]))) =
     length [mk_event 0 1, mk_event 10 2, mk_event 20 4]"
proof -
  have h1: "(1::int) \<noteq> 3" by simp
  have h2: "(\<exists>e \<in> set [mk_event 0 1, mk_event 10 2, mk_event 20 4]. ev_code e = 1) \<and>
      (\<exists>e \<in> set [mk_event 0 1, mk_event 10 2, mk_event 20 4]. ev_code e \<noteq> 1)"
    by (simp add: mk_event_def)
  have h3: "map (\<lambda>x. if x = 1 then 1 else 3)
      (map ev_code [mk_event 0 1, mk_event 10 2, mk_event 20 4]) = [1, 3, 3::int]"
    by (simp add: mk_event_def)
  from relabel_two_labels [of 1 "[mk_event 0 1, mk_event 10 2, mk_event 20 4]"] h1 h2 h3
  show ?thesis by (intro conjI) simp_all
qed

text \<open>
  C10. After a training-mode pass every code of the stimulus sequence is below 90, and
  every event that the inference-mode matcher returns from the retained events has a
  code below 90.
\<close>

theorem codes_below_90:
  "(mode self = Train \<and> find_events env data = Inr found \<longrightarrow>
      (\<forall>c \<in> set (sequence (fst (preprocess env self data))). c < 90)) \<and>
   (find_sequence seq (drop_events events) = Inr trial_events \<longrightarrow>
      (\<forall>e \<in> set trial_events. ev_code e < 90))"
proof (intro conjI impI)
  assume "mode self = Train \<and> find_events env data = Inr found"
  then have "sequence (fst (preprocess env self data)) = np_unique (map ev_code (drop_events found))"
    by (simp add: preprocess_train_sequence)
  then show "\<forall>c \<in> set (sequence (fst (preprocess env self data))). c < 90"
    by (auto simp: np_unique_def drop_events_def)
next
  assume "find_sequence seq (drop_events events) = Inr trial_events"
  from find_sequence_subset [OF this]
  show "\<forall>e \<in> set trial_events. ev_code e < 90"
    by (auto simp: drop_events_def)
qed

theorem codes_below_90_witness:
  "mode clf0 = Train \<and> find_events env0 recording1 = Inr recording1 \<and>
   find_sequence [1, 2] (drop_events [mk_event 0 99, mk_event 10 1, mk_event 20 2]) =
     Inr [mk_event 10 1, mk_event 20 2] \<and>
   sequence (fst (preprocess env0 clf0 recording1)) = [1, 2, 3] \<and>
   Max (set (sequence (fst (preprocess env0 clf0 recording1)))) < 90 \<and>
   ev_code (mk_event 10 1) < 90 \<and> ev_code (mk_event 20 2) < 90"
proof -
  have h1: "mode clf0 = Train \<and> find_events env0 recording1 = Inr recording1"
    by (simp add: clf0_def init_def env0_def)
  have h2: "find_sequence [1, 2] (drop_events [mk_event 0 99, mk_event 10 1, mk_event 20 2]) =
      Inr [mk_event 10 1, mk_event 20 2]"
    by (simp add: find_sequence_def drop_events_def mk_event_def)
  have s: "sequence (fst (preprocess env0 clf0 recording1)) = [1, 2, 3]"
    by (simp add: preprocess_recording1 env0_def)
  note r = codes_below_90 [where self = clf0 and env = env0 and data = recording1
      and found = recording1 and seq = "[1, 2]"
      and events = "[mk_event 0 99, mk_event 10 1, mk_event 20 2]"
      and trial_events = "[mk_event 10 1, mk_event 20 2]"]
  from r h1 have a: "\<forall>c \<in> set (sequence (fst (preprocess env0 clf0 recording1))). c < 90"
    by blast
  from r h2 have b: "\<forall>e \<in> set [mk_event 10 1, mk_event 20 2]. ev_code e < 90"
    by blast
  have "Max (set (sequence (fst (preprocess env0 clf0 recording1)))) \<in>
      set (sequence (fst (preprocess env0 clf0 recording1)))"
    by (rule Max_in) (simp_all add: s)
  with a have "Max (set (sequence (fst (preprocess env0 clf0 recording1)))) < 90" by blast
  with h1 h2 s b show ?thesis by simp
qed

section \<open>Properties of training\<close>

lemma cross_validate_raises:
  "snd (cross_validate env self X y n) = Inl ex \<Longrightarrow> fst (cross_validate env self X y n) = self"
  by (auto simp: cross_validate_def split: sum.splits)

lemma cross_validate_model_only:
  "model self' = model self \<Longrightarrow>
   snd (cross_validate env self' X y n) = snd (cross_validate env self X y n)"
  by (auto simp: cross_validate_def split: sum.splits)

lemma fit_and_evaluate_cv_raises:
  assumes "fit_transform env sc X_train = Inr (sc', X_train')"
    and "snd (cross_validate env self X y (cv_splits self)) = Inl ex"
  shows "fit_and_evaluate env self sc X_train y_train X_test y_test X y =
     ((logging (Training_data_shape (length X_train) (length y_train)) self)\<lparr>scaler := Some sc'\<rparr>,
      Inl ex)"
proof -
  let ?s = "(logging (Training_data_shape (length X_train) (length y_train)) self)\<lparr>scaler := Some sc'\<rparr>"
  have "snd (cross_validate env ?s X y (cv_splits self)) = Inl ex"
    using assms(2) cross_validate_model_only [of ?s self env X y "cv_splits self"] by simp
  moreover from this have "fst (cross_validate env ?s X y (cv_splits self)) = ?s"
    by (rule cross_validate_raises)
  ultimately have "cross_validate env ?s X y (cv_splits self) = (?s, Inl ex)"
    by (simp add: prod_eq_iff)
  then show ?thesis using assms(1)
    by (simp add: fit_and_evaluate_def Let_def)
qed

lemma evaluate_ok:
  assumes "evaluate env self X y = (self', Inr scores)"
  shows "\<exists>sc X' y_pred f1. scaler self = Some sc \<and> transform env sc X = Inr X' \<and>
     model_predict env (model self) X' = Inr y_pred \<and> f1_score env y y_pred = Inr f1 \<and>
     scores = (mean_equal env y_pred y, f1) \<and>
     self' = logging (Eval_f1 f1) (logging (Eval_accuracy (mean_equal env y_pred y)) self)"
  using assms
  by (auto simp: evaluate_def Let_def split: option.splits sum.splits)

lemma cross_validate_ok:
  assumes "cross_validate env self X y n = (self', Inr cv)"
  shows "model self' = model self \<and> scaler self' = scaler self \<and>
    (\<exists>a f. log_records self' = log_records self @ [CV_accuracy a, CV_f1 f])"
  using assms
  by (auto simp: cross_validate_def split: sum.splits)

lemma fit_and_evaluate_ok:
  assumes "fit_and_evaluate env self sc X_fit y_fit X_test y_test X y = (self', Inr u)"
  shows "\<exists>sc' X_fit' m X_test' y_pred f1.
     fit_transform env sc X_fit = Inr (sc', X_fit') \<and>
     model_fit env (model self) X_fit' y_fit = Inr m \<and>
     transform env sc' X_test = Inr X_test' \<and>
     model_predict env m X_test' = Inr y_pred \<and>
     f1_score env y_test y_pred = Inr f1 \<and>
     model self' = m \<and> scaler self' = Some sc' \<and>
     (\<exists>pre. log_records self' = pre @ [Eval_accuracy (mean_equal env y_pred y_test), Eval_f1 f1])"
proof -
  let ?s1 = "logging (Training_data_shape (length X_fit) (length y_fit)) self"
  from assms obtain sc' X_fit' where ft: "fit_transform env sc X_fit = Inr (sc', X_fit')"
    by (auto simp: fit_and_evaluate_def Let_def split: sum.splits prod.splits)
  let ?s2 = "?s1\<lparr>scaler := Some sc'\<rparr>"
  from assms ft obtain s3 cv where cv: "cross_validate env ?s2 X y (cv_splits ?s2) = (s3, Inr cv)"
    by (auto simp: fit_and_evaluate_def Let_def split: sum.splits prod.splits)
  from cross_validate_ok [OF cv] have s3: "model s3 = model self" "scaler s3 = Some sc'"
    by simp_all
  from assms ft cv obtain m where mf: "model_fit env (model s3) X_fit' y_fit = Inr m"
    by (auto simp: fit_and_evaluate_def Let_def split: sum.splits prod.splits)
  from assms ft cv mf obtain scores where
    ev: "evaluate env (s3\<lparr>model := m\<rparr>) X_test y_test = (self', Inr scores)"
    by (auto simp: fit_and_evaluate_def Let_def split: sum.splits prod.splits)
  from evaluate_ok [OF ev] s3 obtain X_test' y_pred f1 where
    e: "transform env sc' X_test = Inr X_test'" "model_predict env m X_test' = Inr y_pred"
      "f1_score env y_test y_pred = Inr f1"
      "self' = logging (Eval_f1 f1) (logging (Eval_accuracy (mean_equal env y_pred y_test)) (s3\<lparr>model := m\<rparr>))"
    by auto
  have "model self' = m" "scaler self' = Some sc'" using e(4) s3 by simp_all
  moreover have "\<exists>pre. log_records self' = pre @ [Eval_accuracy (mean_equal env y_pred y_test), Eval_f1 f1]"
    using e(4) by simp
  ultimately show ?thesis using ft mf s3 e(1,2,3) by auto
qed

section \<open>Training: claims\<close>

text \<open>
  C6, as stated: a failure raised during cross-validation is logged and does not prevent
  the final fit and the held-out evaluation. It fails: \<open>train\<close> calls \<open>cross_validate\<close>
  with no \<open>try\<close> around it. With a cross-validation that raises, \<open>train\<close> raises the same
  exception, the model is the one that was never fit, and the log holds no record of the
  failure and none of an evaluation.
\<close>

theorem cross_validation_failure_is_fatal:
  "snd (train env_cv_fails clf0 recording1 () False 32) =
     Inl (ValueError ''n_splits=10 cannot be greater than the number of samples'') \<and>
   model (fst (train env_cv_fails clf0 recording1 () False 32)) = model clf0 \<and>
   log_records (fst (train env_cv_fails clf0 recording1 () False 32)) =
     [Data_preprocessed 4, Training_data_shape 3 3]"
  by (simp add: train_def preprocess_def extract_epochs_def fit_and_evaluate_def cross_validate_def
      env_cv_fails_def env0_def clf0_def init_def recording1_def mk_event_def drop_events_def
      relabel_def logging_def label_encode_def reshape_rows_def Let_def)

text \<open>
  C6, amended: an exception raised during the cross-validation step is neither caught nor
  logged by \<open>train\<close>; it propagates to the caller, and the final model fit and the
  held-out evaluation are not executed: the model is left as it was, the scaler fitted
  before the cross-validation is stored, and the only record logged after preprocessing
  is the shape of the training data. (With zero epochs \<open>train\<close> does not reach the
  cross-validation: the \<open>reshape\<close> of line 90 raises.)
\<close>

theorem cross_validation_failure_aborts_train:
  assumes "preprocess env self data = (self1, Inr (X, labels))"
    and "train_test_split env X (label_encode labels) seed = Inr (X_train, X_test, y_train, y_test)"
    and "(if oversample then fit_resample env seed X_train y_train else Inr (X_train, y_train)) =
           Inr (X_fit, y_fit)"
    and "fit_transform env sc X_fit = Inr (sc', X_fit')"
    and "snd (cross_validate env self1 X (label_encode labels) (cv_splits self1)) = Inl ex"
  shows "(X \<noteq> [] \<longrightarrow>
           snd (train env self data sc oversample seed) = Inl ex \<and>
           model (fst (train env self data sc oversample seed)) = model self1 \<and>
           scaler (fst (train env self data sc oversample seed)) = Some sc' \<and>
           log_records (fst (train env self data sc oversample seed)) =
             log_records self1 @ [Training_data_shape (length X_fit) (length y_fit)]) \<and>
         (X = [] \<longrightarrow>
           train env self data sc oversample seed =
             (self1, Inl (ValueError ''cannot reshape array of size 0 into shape (0,newaxis)'')))"
proof (rule conjI)
  let ?s2 = "self1\<lparr>prep_X := Some X, prep_Y := Some (label_encode labels)\<rparr>"
  let ?t = "train env self data sc oversample seed"
  show "X \<noteq> [] \<longrightarrow>
      snd ?t = Inl ex \<and> model (fst ?t) = model self1 \<and> scaler (fst ?t) = Some sc' \<and>
      log_records (fst ?t) = log_records self1 @ [Training_data_shape (length X_fit) (length y_fit)]"
  proof (rule impI)
    assume ne: "X \<noteq> []"
    have cv: "snd (cross_validate env ?s2 X (label_encode labels) (cv_splits ?s2)) = Inl ex"
      using assms(5) cross_validate_model_only [of ?s2 self1 env X "label_encode labels" "cv_splits self1"]
      by simp
    have "?t = fit_and_evaluate env ?s2 sc X_fit y_fit X_test y_test X (label_encode labels)"
      using assms(1,2,3) ne by (auto simp: train_def reshape_rows_def Let_def split: if_splits)
    also have "\<dots> = ((logging (Training_data_shape (length X_fit) (length y_fit)) ?s2)\<lparr>scaler := Some sc'\<rparr>, Inl ex)"
      by (rule fit_and_evaluate_cv_raises [OF assms(4) cv])
    finally show "snd ?t = Inl ex \<and> model (fst ?t) = model self1 \<and> scaler (fst ?t) = Some sc' \<and>
        log_records (fst ?t) = log_records self1 @ [Training_data_shape (length X_fit) (length y_fit)]"
      by simp
  qed
  show "X = [] \<longrightarrow>
      ?t = (self1, Inl (ValueError ''cannot reshape array of size 0 into shape (0,newaxis)''))"
    using assms(1) by (simp add: train_def reshape_rows_def)
qed

theorem cross_validation_failure_aborts_train_witness:
  "snd (cross_validate env_cv_fails (logging (Data_preprocessed 4) (clf0\<lparr>sequence := [1, 2, 3]\<rparr>))
     [0, 10, 30, 40] (label_encode [3, 1, 3, 3]) 10) =
     Inl (ValueError ''n_splits=10 cannot be greater than the number of samples'') \<and>
   snd (train env_cv_fails clf0 recording1 () True 32) =
     Inl (ValueError ''n_splits=10 cannot be greater than the number of samples'') \<and>
   model (fst (train env_cv_fails clf0 recording1 () True 32)) = 0 \<and>
   scaler (fst (train env_cv_fails clf0 recording1 () True 32)) = Some () \<and>
   log_records (fst (train env_cv_fails clf0 recording1 () True 32)) =
     [Data_preprocessed 4, Training_data_shape 6 6]"
proof -
  let ?self1 = "logging (Data_preprocessed 4) (clf0\<lparr>sequence := [1, 2, 3]\<rparr>)"
  let ?ex = "ValueError ''n_splits=10 cannot be greater than the number of samples''"
  have h1: "preprocess env_cv_fails clf0 recording1 = (?self1, Inr ([0, 10, 30, 40], [3, 1, 3, 3]))"
    by (rule preprocess_recording1) (simp_all add: env_cv_fails_def env0_def)
  have h2: "train_test_split env_cv_fails [0, 10, 30, 40] (label_encode [3, 1, 3, 3]) 32 =
      Inr ([0, 10, 30], [40], [1, 0, 1], [1])"
    by (simp add: env_cv_fails_def env0_def label_encode_recording1)
  have h3: "(if True then fit_resample env_cv_fails 32 [0, 10, 30] [1, 0, 1]
      else Inr ([0, 10, 30], [1, 0, 1])) = Inr ([0, 10, 30, 0, 10, 30], [1, 0, 1, 1, 0, 1])"
    by (simp add: env_cv_fails_def env0_def)
  have h4: "fit_transform env_cv_fails () [0, 10, 30, 0, 10, 30] = Inr ((), [0, 10, 30, 0, 10, 30])"
    by (simp add: env_cv_fails_def env0_def)
  have c: "cv_splits ?self1 = 10" "model ?self1 = 0" "log_records ?self1 = [Data_preprocessed 4]"
    by (simp_all add: clf0_def init_def)
  have h5: "snd (cross_validate env_cv_fails ?self1 [0, 10, 30, 40] (label_encode [3, 1, 3, 3])
      (cv_splits ?self1)) = Inl ?ex"
    by (simp add: cross_validate_def env_cv_fails_def env0_def)
  from cross_validation_failure_aborts_train [OF h1 h2 h3 h4 h5, THEN conjunct1] h5 c
  show ?thesis by simp
qed

section \<open>Properties of prediction\<close>

lemma predict_preprocess_raises:
  "preprocess env self data = (self1, Inl ex) \<Longrightarrow>
   predict env self data proba g = (logging (Error_while_preprocessing ex) self1, Inr None)"
  by (simp add: predict_def)

lemma first_index_mem:
  "x \<in> set ys \<Longrightarrow>
   first_index x ys < length ys \<and> ys ! first_index x ys = x \<and>
   (\<forall>j < first_index x ys. ys ! j \<noteq> x)"
proof (induction ys)
  case Nil
  then show ?case by simp
next
  case (Cons y ys)
  show ?case
  proof (cases "x = y")
    case True
    then show ?thesis by simp
  next
    case False
    with Cons.prems have "x \<in> set ys" by simp
    from Cons.IH [OF this] False show ?thesis
      by (auto simp: nth_Cons split: nat.splits)
  qed
qed

lemma np_argmax_first_max:
  fixes ys :: "'a::linorder list"
  assumes "ys \<noteq> []"
  shows "\<exists>i. np_argmax ys = Inr i \<and> i < length ys \<and> ys ! i = Max (set ys) \<and>
    (\<forall>j < i. ys ! j < ys ! i)"
proof -
  let ?m = "Max (set ys)"
  let ?i = "first_index ?m ys"
  from assms have mem: "?m \<in> set ys" by (simp add: Max_in)
  from first_index_mem [OF mem] have
    i: "?i < length ys" "ys ! ?i = ?m" "\<forall>j < ?i. ys ! j \<noteq> ?m"
    by simp_all
  have "\<forall>j < ?i. ys ! j < ys ! ?i"
  proof (intro allI impI)
    fix j
    assume j: "j < ?i"
    with i(1) have "ys ! j \<in> set ys" by simp
    then have "ys ! j \<le> ?m" by simp
    moreover from i(3) j have "ys ! j \<noteq> ?m" by simp
    ultimately show "ys ! j < ys ! ?i" using i(2) by simp
  qed
  with i assms show ?thesis by (simp add: np_argmax_def)
qed

lemma dict_set_fresh: "k \<notin> fst ` set kvs \<Longrightarrow> dict_set k v kvs = kvs @ [(k, v)]"
  by (induction kvs) auto

lemma fill_output_distinct:
  "n + length seq \<le> length ys \<Longrightarrow> distinct seq \<Longrightarrow>
   \<forall>c \<in> set seq. Key_code c \<notin> fst ` set out \<Longrightarrow>
   fill_output (enumerate n seq) ys out =
     Inr (out @ zip (map Key_code seq) (take (length seq) (drop n ys)))"
proof (induction seq arbitrary: n out)
  case Nil
  then show ?case by simp
next
  case (Cons c seq)
  from Cons.prems have n: "n < length ys" by simp
  from Cons.prems have fresh: "dict_set (Key_code c) (ys ! n) out = out @ [(Key_code c, ys ! n)]"
    by (simp add: dict_set_fresh)
  have "Suc n + length seq \<le> length ys" using Cons.prems by simp
  moreover have "distinct seq" using Cons.prems by simp
  moreover have "\<forall>c' \<in> set seq. Key_code c' \<notin> fst ` set (out @ [(Key_code c, ys ! n)])"
    using Cons.prems by auto
  ultimately have "fill_output (enumerate (Suc n) seq) ys (out @ [(Key_code c, ys ! n)]) =
      Inr ((out @ [(Key_code c, ys ! n)]) @
        zip (map Key_code seq) (take (length seq) (drop (Suc n) ys)))"
    by (rule Cons.IH)
  moreover have "take (length (c # seq)) (drop n ys) = ys ! n # take (length seq) (drop (Suc n) ys)"
    using n by (simp add: Cons_nth_drop_Suc [symmetric])
  ultimately show ?case using n fresh by simp
qed

lemma dict_get_zip:
  "distinct ks \<Longrightarrow> length ks = length vs \<Longrightarrow> idx < length ks \<Longrightarrow> k0 \<notin> set ks \<Longrightarrow>
   dict_get ((k0, v0) # zip ks vs) (ks ! idx) = Some (vs ! idx)"
proof -
  have aux: "distinct ks \<Longrightarrow> length ks = length vs \<Longrightarrow> idx < length ks \<Longrightarrow>
      dict_get (zip ks vs) (ks ! idx) = Some (vs ! idx)" for ks :: "'a list" and vs :: "'b list" and idx
  proof (induction ks vs arbitrary: idx rule: list_induct2')
    case (4 k ks v vs)
    then show ?case by (cases idx) auto
  qed simp_all
  assume "distinct ks" "length ks = length vs" "idx < length ks" "k0 \<notin> set ks"
  then show ?thesis using aux [of ks vs idx] by auto
qed

lemma sum_list_divide:
  fixes f :: "'a \<Rightarrow> real"
  shows "sum_list (map (\<lambda>x. f x / c) xs) = sum_list (map f xs) / c"
  by (induction xs) (simp_all add: add_divide_distrib)

lemma softmax_sums_to_one:
  assumes "ys \<noteq> []"
  shows "sum_list (normalize_softmax ys) = 1"
proof -
  from assms obtain v vs where ys: "ys = v # vs" by (cases ys) auto
  have "0 \<le> sum_list (map exp vs)" by (rule sum_list_nonneg) auto
  then have "0 < sum_list (map exp ys)" using ys by (simp add: add_pos_nonneg)
  then show ?thesis
    by (simp add: normalize_softmax_def sum_list_divide)
qed

lemma round_half_even_near: "\<bar>of_int (round_half_even v) - v\<bar> \<le> 1 / 2"
proof -
  have "of_int \<lfloor>v\<rfloor> \<le> v" "v < of_int \<lfloor>v\<rfloor> + 1" by linarith+
  then show ?thesis
    by (auto simp: round_half_even_def Let_def)
qed

lemma np_round_4_near: "\<bar>np_round 4 v - v\<bar> \<le> 1 / 20000"
proof -
  have "\<bar>of_int (round_half_even (v * 10000)) - v * 10000\<bar> \<le> 1 / 2"
    by (rule round_half_even_near)
  then show ?thesis by (simp add: np_round_def field_simps abs_le_iff)
qed

lemma np_round_4_grid: "\<exists>n::int. np_round 4 v = of_int n / 10000"
  by (auto simp: np_round_def)

text \<open>The example probabilities, normalized and rounded.\<close>

lemma softmax_example: "normalize_softmax [0, ln 2] = [1 / 3, 2 / 3]"
  by (simp add: normalize_softmax_def)

lemma np_round_third: "np_round 4 (1 / 3) = 3333 / 10000"
  by (simp add: np_round_def round_half_even_def Let_def)

lemma np_round_two_thirds: "np_round 4 (2 / 3) = 6667 / 10000"
  by (simp add: np_round_def round_half_even_def Let_def)

lemma group_predictions_example:
  "group_predictions env_proba clf_trained [0, 10] True =
     Inr [(Key_class, Class_index 2), (Key_code 1, Score (3333 / 10000)),
       (Key_code 2, Score (6667 / 10000))]"
  by (simp add: group_predictions_def predict_probabilities_def env_proba_def env0_def
      clf_trained_def clf0_def init_def column_1_def softmax_example np_round_third
      np_round_two_thirds np_argmax_def enumerate_eq_zip Let_def)

section \<open>Prediction: claims\<close>

text \<open>
  C7, as stated: only the sequence-not-found error of preprocessing is converted to no
  result, and every other error raised during prediction propagates. It fails: the
  handler is \<open>except Exception\<close>. A classifier that was never trained has the empty
  sequence; in inference mode \<open>self.sequence[0]\<close> raises \<open>IndexError\<close>, which is not the
  sequence-not-found error, and \<open>predict\<close> logs it and returns \<open>None\<close>.
\<close>

theorem predict_swallows_other_errors:
  "snd (preprocess env0 (set_inference_mode clf0 True) [mk_event 0 1]) =
     Inl (IndexError ''index out of range'') \<and>
   IndexError ''index out of range'' \<noteq> not_enough_events \<and>
   predict env0 (set_inference_mode clf0 True) [mk_event 0 1] False False =
     (logging (Error_while_preprocessing (IndexError ''index out of range''))
        (set_inference_mode clf0 True), Inr None)"
  by (simp add: predict_def preprocess_def find_sequence_def env0_def clf0_def init_def
      set_inference_mode_def drop_events_def mk_event_def not_enough_events_def Let_def)

text \<open>
  C7, amended: every exception raised during preprocessing, the sequence-not-found error
  of the matcher among them, is caught at the prediction boundary, logged, and converted
  to no result (\<open>None\<close>, no partial output). An error raised after preprocessing (the
  \<open>reshape\<close> of zero epochs, the missing scaler, the scaler's \<open>transform\<close>, the model's
  prediction, the grouping) propagates to the caller uncaught and is not logged; after a
  successful preprocessing \<open>predict\<close> never returns \<open>None\<close>.
\<close>

theorem predict_error_boundary:
  "(preprocess env self data = (self1, Inl ex) \<longrightarrow>
      predict env self data proba g = (logging (Error_while_preprocessing ex) self1, Inr None)) \<and>
   (mode self = Predict \<and> find_events env data = Inr found \<and>
    find_sequence (sequence self) (drop_events found) = Inl not_enough_events \<longrightarrow>
      predict env self data proba g =
        (logging (Error_while_preprocessing not_enough_events) self, Inr None)) \<and>
   (preprocess env self data = (self1, Inr (X, labels)) \<longrightarrow>
      fst (predict env self data proba g) = self1 \<and>
      snd (predict env self data proba g) \<noteq> Inr None \<and>
      (X = [] \<longrightarrow>
         snd (predict env self data proba g) =
           Inl (ValueError ''cannot reshape array of size 0 into shape (0,newaxis)'')) \<and>
      (X \<noteq> [] \<and> scaler self1 = None \<longrightarrow>
         snd (predict env self data proba g) =
           Inl (AttributeError ''NoneType object has no attribute transform'')) \<and>
      (\<forall>sc ex'. X \<noteq> [] \<and> scaler self1 = Some sc \<and> transform env sc X = Inl ex' \<longrightarrow>
         snd (predict env self data proba g) = Inl ex') \<and>
      (\<forall>sc X' ex'. X \<noteq> [] \<and> scaler self1 = Some sc \<and> transform env sc X = Inr X' \<and>
         (g \<and> group_predictions env self1 X' proba = Inl ex' \<or>
          \<not> g \<and> proba \<and> predict_probabilities env self1 X' = Inl ex' \<or>
          \<not> g \<and> \<not> proba \<and> predict_class env self1 X' = Inl ex') \<longrightarrow>
         snd (predict env self data proba g) = Inl ex'))"
proof (intro conjI impI allI)
  assume "preprocess env self data = (self1, Inl ex)"
  then show "predict env self data proba g = (logging (Error_while_preprocessing ex) self1, Inr None)"
    by (rule predict_preprocess_raises)
next
  assume "mode self = Predict \<and> find_events env data = Inr found \<and>
    find_sequence (sequence self) (drop_events found) = Inl not_enough_events"
  then have "preprocess env self data = (self, Inl not_enough_events)"
    by (simp add: preprocess_def Let_def)
  then show "predict env self data proba g =
      (logging (Error_while_preprocessing not_enough_events) self, Inr None)"
    by (rule predict_preprocess_raises)
next
  assume p: "preprocess env self data = (self1, Inr (X, labels))"
  show "fst (predict env self data proba g) = self1"
    using p by (simp add: predict_def reshape_rows_def split: option.splits sum.splits)
  show "snd (predict env self data proba g) \<noteq> Inr None"
    using p by (auto simp: predict_def reshape_rows_def map_sum_def split: option.splits sum.splits)
  show "snd (predict env self data proba g) =
      Inl (ValueError ''cannot reshape array of size 0 into shape (0,newaxis)'')"
    if "X = []"
    using p that by (simp add: predict_def reshape_rows_def)
  show "snd (predict env self data proba g) =
      Inl (AttributeError ''NoneType object has no attribute transform'')"
    if "X \<noteq> [] \<and> scaler self1 = None"
    using p that by (simp add: predict_def reshape_rows_def)
  show "snd (predict env self data proba g) = Inl ex'"
    if "X \<noteq> [] \<and> scaler self1 = Some sc \<and> transform env sc X = Inl ex'" for sc ex'
    using p that by (simp add: predict_def reshape_rows_def)
  show "snd (predict env self data proba g) = Inl ex'"
    if "X \<noteq> [] \<and> scaler self1 = Some sc \<and> transform env sc X = Inr X' \<and>
      (g \<and> group_predictions env self1 X' proba = Inl ex' \<or>
       \<not> g \<and> proba \<and> predict_probabilities env self1 X' = Inl ex' \<or>
       \<not> g \<and> \<not> proba \<and> predict_class env self1 X' = Inl ex')" for sc X' ex'
    using p that by (auto simp: predict_def reshape_rows_def)
qed

theorem predict_error_boundary_witness:
  "mode clf_trained = Predict \<and> find_events env0 [mk_event 1000 1] = Inr [mk_event 1000 1] \<and>
   find_sequence (sequence clf_trained) (drop_events [mk_event 1000 1]) = Inl not_enough_events \<and>
   predict env0 clf_trained [mk_event 1000 1] False False =
     (logging (Error_while_preprocessing not_enough_events) clf_trained, Inr None) \<and>
   preprocess env0 (clf_trained\<lparr>scaler := None\<rparr>) [mk_event 1000 1, mk_event 2000 2] =
     (logging (Data_preprocessed 2)
        (logging (Found_matching_events [mk_event 1000 1, mk_event 2000 2])
           (clf_trained\<lparr>scaler := None\<rparr>)),
      Inr ([1000, 2000], [1, 3])) \<and>
   snd (predict env0 (clf_trained\<lparr>scaler := None\<rparr>) [mk_event 1000 1, mk_event 2000 2] False False) =
     Inl (AttributeError ''NoneType object has no attribute transform'') \<and>
   preprocess env_edge clf_trained [mk_event 0 1, mk_event 10 2] =
     (logging (Data_preprocessed 0)
        (logging (Found_matching_events [mk_event 0 1, mk_event 10 2]) clf_trained),
      Inr ([], [])) \<and>
   snd (predict env_edge clf_trained [mk_event 0 1, mk_event 10 2] False False) =
     Inl (ValueError ''cannot reshape array of size 0 into shape (0,newaxis)'')"
proof -
  let ?u = "clf_trained\<lparr>scaler := None\<rparr>"
  let ?u1 = "logging (Data_preprocessed 2)
    (logging (Found_matching_events [mk_event 1000 1, mk_event 2000 2]) ?u)"
  let ?v1 = "logging (Data_preprocessed 0)
    (logging (Found_matching_events [mk_event 0 1, mk_event 10 2]) clf_trained)"
  have h1: "mode clf_trained = Predict \<and> find_events env0 [mk_event 1000 1] = Inr [mk_event 1000 1] \<and>
      find_sequence (sequence clf_trained) (drop_events [mk_event 1000 1]) = Inl not_enough_events"
    by (simp add: clf_trained_def env0_def find_sequence_def drop_events_def mk_event_def)
  have h2: "preprocess env0 ?u [mk_event 1000 1, mk_event 2000 2] = (?u1, Inr ([1000, 2000], [1, 3]))"
    by (simp add: preprocess_def extract_epochs_def find_sequence_def drop_events_def relabel_def
        clf_trained_def clf0_def init_def env0_def mk_event_def logging_def Let_def)
  have h3: "[1000, 2000] \<noteq> ([]::int list) \<and> scaler ?u1 = None" by (simp add: logging_def)
  have h4: "preprocess env_edge clf_trained [mk_event 0 1, mk_event 10 2] = (?v1, Inr ([], []))"
    by (simp add: preprocess_def extract_epochs_def find_sequence_def drop_events_def relabel_def
        clf_trained_def clf0_def init_def env_edge_def env0_def mk_event_def logging_def Let_def)
  note a = predict_error_boundary [where env = env0 and self = clf_trained
      and data = "[mk_event 1000 1]" and found = "[mk_event 1000 1]" and proba = False and g = False,
      THEN conjunct2, THEN conjunct1]
  note b = predict_error_boundary [where env = env0 and self = "?u"
      and data = "[mk_event 1000 1, mk_event 2000 2]" and ?self1.0 = "?u1" and X = "[1000, 2000]"
      and labels = "[1, 3]" and proba = False and g = False,
      THEN conjunct2, THEN conjunct2]
  note c = predict_error_boundary [where env = env_edge and self = clf_trained
      and data = "[mk_event 0 1, mk_event 10 2]" and ?self1.0 = "?v1" and X = "[]"
      and labels = "[]" and proba = False and g = False,
      THEN conjunct2, THEN conjunct2]
  from a h1 have r1: "predict env0 clf_trained [mk_event 1000 1] False False =
      (logging (Error_while_preprocessing not_enough_events) clf_trained, Inr None)"
    by blast
  from b h2 h3 have r2: "snd (predict env0 ?u [mk_event 1000 1, mk_event 2000 2] False False) =
      Inl (AttributeError ''NoneType object has no attribute transform'')"
    by blast
  from c h4 have r3: "snd (predict env_edge clf_trained [mk_event 0 1, mk_event 10 2] False False) =
      Inl (ValueError ''cannot reshape array of size 0 into shape (0,newaxis)'')"
    by blast
  from h1 h2 h4 r1 r2 r3 show ?thesis by blast
qed

text \<open>
  C8. For a grouped probability prediction over \<open>k\<close> epochs, \<open>k\<close> the length of the
  stimulus sequence: column 1 of the class probabilities is normalized with the softmax
  transform (the normalized scores sum to 1) and each score is rounded to 4 decimals (a
  multiple of 0.0001 within 0.00005 of it); the decided class is the index of the first
  maximum of the rounded scores plus 1; the returned dictionary holds \<open>'class'\<close> first and
  then, in sequence order, each stimulus code with its score.
\<close>

theorem group_predictions_softmax_argmax:
  assumes "predict_probabilities env self X = Inr y"
    and "length y = length (sequence self)" and "sequence self \<noteq> []"
    and "\<forall>row \<in> set y. 1 < length row" and "distinct (sequence self)"
  shows "\<exists>i scores.
      scores = map (np_round 4) (normalize_softmax (map (\<lambda>row. row ! 1) y)) \<and>
      i < length scores \<and> scores ! i = Max (set scores) \<and> (\<forall>j < i. scores ! j < scores ! i) \<and>
      group_predictions env self X True =
        Inr ((Key_class, Class_index (i + 1)) #
          zip (map Key_code (sequence self)) (map Score scores)) \<and>
      (\<forall>idx < length (sequence self).
         dict_get ((Key_class, Class_index (i + 1)) #
             zip (map Key_code (sequence self)) (map Score scores))
           (Key_code (sequence self ! idx)) = Some (Score (scores ! idx))) \<and>
      sum_list (normalize_softmax (map (\<lambda>row. row ! 1) y)) = 1 \<and>
      (\<forall>idx < length scores.
         \<bar>scores ! idx - normalize_softmax (map (\<lambda>row. row ! 1) y) ! idx\<bar> \<le> 1 / 20000 \<and>
         (\<exists>n::int. scores ! idx = of_int n / 10000))"
proof -
  let ?seq = "sequence self"
  let ?y1 = "map (\<lambda>row. row ! 1) y"
  let ?scores = "map (np_round 4) (normalize_softmax ?y1)"
  have col: "column_1 y = Inr ?y1" using assms(4) by (simp add: column_1_def)
  have len: "length ?scores = length ?seq"
    using assms(2) by (simp add: normalize_softmax_def)
  with assms(3) have ne: "?scores \<noteq> []" by auto
  from np_argmax_first_max [OF ne] obtain i where
    i: "np_argmax ?scores = Inr i" "i < length ?scores" "?scores ! i = Max (set ?scores)"
      "\<forall>j < i. ?scores ! j < ?scores ! i"
    by blast
  let ?out = "(Key_class, Class_index (i + 1)) # zip (map Key_code ?seq) (map Score ?scores)"
  have "fill_output (enumerate 0 ?seq) (map Score ?scores) [(Key_class, Class_index (i + 1))] =
      Inr ([(Key_class, Class_index (i + 1))] @
        zip (map Key_code ?seq) (take (length ?seq) (drop 0 (map Score ?scores))))"
    by (rule fill_output_distinct) (use len assms(5) in simp_all)
  then have fill: "fill_output (enumerate 0 ?seq) (map Score ?scores)
      [(Key_class, Class_index (i + 1))] = Inr ?out"
    using len by simp
  have run: "group_predictions env self X True = Inr ?out"
    using assms(1) col i(1) fill by (simp add: group_predictions_def Let_def)
  have get: "\<forall>idx < length ?seq. dict_get ?out (Key_code (?seq ! idx)) = Some (Score (?scores ! idx))"
  proof (intro allI impI)
    fix idx
    assume idx: "idx < length ?seq"
    have "distinct (map Key_code ?seq)" using assms(5) by (simp add: distinct_map inj_on_def)
    moreover have "length (map Key_code ?seq) = length (map Score ?scores)" using len by simp
    moreover have "idx < length (map Key_code ?seq)" using idx by simp
    moreover have "Key_class \<notin> set (map Key_code ?seq)" by auto
    ultimately have "dict_get ((Key_class, Class_index (i + 1)) #
        zip (map Key_code ?seq) (map Score ?scores)) (map Key_code ?seq ! idx) =
        Some (map Score ?scores ! idx)"
      by (rule dict_get_zip)
    then show "dict_get ?out (Key_code (?seq ! idx)) = Some (Score (?scores ! idx))"
      using idx len by simp
  qed
  have "?y1 \<noteq> []" using assms(2,3) by auto
  then have one: "sum_list (normalize_softmax ?y1) = 1" by (rule softmax_sums_to_one)
  have rounded: "\<forall>idx < length ?scores.
      \<bar>?scores ! idx - normalize_softmax ?y1 ! idx\<bar> \<le> 1 / 20000 \<and>
      (\<exists>n::int. ?scores ! idx = of_int n / 10000)"
    using np_round_4_near np_round_4_grid by simp
  from i(2,3,4) run get one rounded show ?thesis by blast
qed

theorem group_predictions_softmax_argmax_witness:
  "predict_probabilities env_proba clf_trained [0, 10] = Inr [[1, 0], [1 - ln 2, ln 2]] \<and>
   sequence clf_trained = [1, 2] \<and>
   group_predictions env_proba clf_trained [0, 10] True =
     Inr [(Key_class, Class_index 2), (Key_code 1, Score (3333 / 10000)),
       (Key_code 2, Score (6667 / 10000))] \<and>
   (\<exists>i. i < 2 \<and> group_predictions env_proba clf_trained [0, 10] True =
      Inr ((Key_class, Class_index (i + 1)) # zip (map Key_code [1, 2])
        (map Score (map (np_round 4) (normalize_softmax [0, ln 2])))))"
proof -
  have h1: "predict_probabilities env_proba clf_trained [0, 10] = Inr [[1, 0], [1 - ln 2, ln 2]]"
    by (simp add: predict_probabilities_def env_proba_def)
  have s: "sequence clf_trained = [1, 2]" by (simp add: clf_trained_def)
  have h2: "length [[1, 0], [1 - ln 2, ln 2 :: real]] = length (sequence clf_trained)"
    by (simp add: s)
  have h3: "sequence clf_trained \<noteq> []" by (simp add: s)
  have h4: "\<forall>row \<in> set [[1, 0], [1 - ln 2, ln 2 :: real]]. 1 < length row" by simp
  have h5: "distinct (sequence clf_trained)" by (simp add: s)
  from group_predictions_softmax_argmax [OF h1 h2 h3 h4 h5] obtain i where
    "i < 2" "group_predictions env_proba clf_trained [0, 10] True =
      Inr ((Key_class, Class_index (i + 1)) # zip (map Key_code [1, 2])
        (map Score (map (np_round 4) (normalize_softmax [0, ln 2]))))"
    by (auto simp: s normalize_softmax_def)
  with h1 s group_predictions_example show ?thesis by blast
qed

end
